theory Spec2Isabelle
  imports Complex_Main "HOL-Library.Product_Lexorder"
begin

section \<open>Conventions\<close>

text \<open>
  The development embeds \<^verbatim>\<open>train_imagenet.py\<close>. Python floats and the numbers held by
  tensors are idealised as \<^typ>\<open>real\<close>; rounding, infinities and NaN are outside the model.
  Python exceptions are values of the type \<open>error\<close>, and a function that can raise returns
  \<open>error + 'a\<close> with \<open>Inl\<close> for the exception.
\<close>

datatype error =
    ZeroDivisionError
  | ValueError
  | RuntimeError
  | AttributeError
  | UnboundLocalError

section \<open>AverageMeter\<close>

text \<open>
  \<^verbatim>\<open>
  class AverageMeter(object):
      def __init__(self):
          self.reset()
      def reset(self):
          self.val = 0; self.avg = 0; self.sum = 0; self.count = 0
      def update(self, val, n=1):
          self.val = val
          self.sum += val * n
          self.count += n
          self.avg = self.sum / self.count
  \<close>
  The division of two Python numbers raises \<^verbatim>\<open>ZeroDivisionError\<close> when the divisor is zero.
  The field \<open>sum_m\<close> is \<^verbatim>\<open>self.sum\<close>.
\<close>

record meter =
  val :: real
  avg :: real
  sum_m :: real
  count :: real

definition reset :: "meter \<Rightarrow> meter" where
  "reset m = m\<lparr>val := 0, avg := 0, sum_m := 0, count := 0\<rparr>"

definition AverageMeter :: meter where
  "AverageMeter = reset \<lparr>val = 0, avg = 0, sum_m = 0, count = 0\<rparr>"

definition py_div :: "real \<Rightarrow> real \<Rightarrow> error + real" where
  "py_div a b = (if b = 0 then Inl ZeroDivisionError else Inr (a / b))"

definition update :: "meter \<Rightarrow> real \<Rightarrow> real \<Rightarrow> error + meter" where
  "update m v n =
     (let m1 = m\<lparr>val := v\<rparr>;
          m2 = m1\<lparr>sum_m := sum_m m1 + v * n\<rparr>;
          m3 = m2\<lparr>count := count m2 + n\<rparr>
      in case py_div (sum_m m3) (count m3) of
           Inl e \<Rightarrow> Inl e
         | Inr q \<Rightarrow> Inr (m3\<lparr>avg := q\<rparr>))"

text \<open>A sequence of \<^verbatim>\<open>update(value, weight)\<close> calls; the first exception ends it.\<close>

fun updates :: "meter \<Rightarrow> (real \<times> real) list \<Rightarrow> error + meter" where
  "updates m [] = Inr m"
| "updates m ((v, n) # xs) =
     (case update m v n of Inl e \<Rightarrow> Inl e | Inr m' \<Rightarrow> updates m' xs)"

text \<open>The accumulated sum of value times weight, and the accumulated weight.\<close>

definition weighted_total :: "(real \<times> real) list \<Rightarrow> real" where
  "weighted_total xs = sum_list (map (\<lambda>(v, n). v * n) xs)"

definition weight_total :: "(real \<times> real) list \<Rightarrow> real" where
  "weight_total xs = sum_list (map snd xs)"

text \<open>After each of the first \<open>k\<close> updates the accumulated weight, counted from \<open>c\<close>, is not zero.\<close>

definition weights_ok :: "real \<Rightarrow> (real \<times> real) list \<Rightarrow> bool" where
  "weights_ok c xs = (\<forall>k \<in> {1..length xs}. c + weight_total (take k xs) \<noteq> 0)"

section \<open>Checkpoints and the driver\<close>

text \<open>
  A checkpoint is the dictionary that \<^verbatim>\<open>main\<close> passes to \<^verbatim>\<open>save_checkpoint\<close>; the model's
  and the optimizer's state are opaque lists of numbers. The file system maps a path to the
  checkpoint stored there, so \<^verbatim>\<open>os.path.isfile(p)\<close> is \<open>files p \<noteq> None\<close>.
\<close>

type_synonym weights = "real list"

record checkpoint =
  epoch :: nat
  arch :: string
  state_dict :: weights
  best_prec1 :: real
  optimizer :: weights

type_synonym filesystem = "string \<rightharpoonup> checkpoint"

text \<open>
  \<^verbatim>\<open>
  def save_checkpoint(state, is_best, filename='checkpoint.pth.tar'):
      torch.save(state, filename)
      if is_best:
          shutil.copyfile(filename, 'model_best.pth.tar')
  \<close>
  \<^verbatim>\<open>shutil.copyfile\<close> raises \<^verbatim>\<open>SameFileError\<close> when source and destination are one file.
\<close>

datatype io_error = SameFileError

definition save_checkpoint :: "filesystem \<Rightarrow> checkpoint \<Rightarrow> bool \<Rightarrow> string \<Rightarrow> io_error + filesystem" where
  "save_checkpoint files state is_best filename =
     (let files1 = files(filename \<mapsto> state)
      in if is_best then
           (if filename = ''model_best.pth.tar'' then Inl SameFileError
            else Inr (files1(''model_best.pth.tar'' := files1 filename)))
         else Inr files1)"

datatype log_entry = Info string | Warning string

text \<open>
  The part of the process state that \<^verbatim>\<open>main\<close> reads and writes: \<^verbatim>\<open>args.start_epoch\<close>
  (\<open>None\<close> while the attribute does not exist: the argument parser declares no such option),
  the global \<^verbatim>\<open>best_prec1\<close> (initially 0), the model's and the optimizer's state, the files
  and the log.
\<close>

record main_state =
  start_epoch :: "nat option"
  global_best_prec1 :: real
  model :: weights
  optimizer_state :: weights
  files :: filesystem
  log :: "log_entry list"

definition quoted :: "string \<Rightarrow> string" where
  "quoted s = [CHR 0x27] @ s @ [CHR 0x27]"

text \<open>
  Lines 108 to 122 of \<^verbatim>\<open>main\<close>; \<^verbatim>\<open>init_weights\<close> is a parameter.
  \<^verbatim>\<open>
  if args.resume:
      if os.path.isfile(args.resume):
          logger.info("=> loading checkpoint '{}'".format(args.resume))
          checkpoint = torch.load(args.resume)
          args.start_epoch = checkpoint['epoch']
          best_prec1 = checkpoint['best_prec1']
          model.load_state_dict(checkpoint['state_dict'])
          optimizer.load_state_dict(checkpoint['optimizer'])
          logger.info("=> loaded checkpoint '{}' (epoch {})".format(...))
      else:
          logger.warning("=> no checkpoint found at '{}'".format(args.resume))
  else:
      init_weights(model)
      args.start_epoch = 0
  \<close>
\<close>

definition resume_block :: "(weights \<Rightarrow> weights) \<Rightarrow> string \<Rightarrow> main_state \<Rightarrow> main_state" where
  "resume_block init_weights resume st =
     (if resume \<noteq> [] then
        (case files st resume of
           Some ckpt \<Rightarrow>
             st\<lparr>start_epoch := Some (epoch ckpt),
                global_best_prec1 := best_prec1 ckpt,
                model := state_dict ckpt,
                optimizer_state := optimizer ckpt,
                log := log st @ [Info (''=> loading checkpoint '' @ quoted resume),
                                 Info (''=> loaded checkpoint '' @ quoted resume)]\<rparr>
         | None \<Rightarrow>
             st\<lparr>log := log st @ [Warning (''=> no checkpoint found at '' @ quoted resume)]\<rparr>)
      else st\<lparr>model := init_weights (model st), start_epoch := Some 0\<rparr>)"

text \<open>
  Lines 161 to 170, the end of one epoch, given the value \<^verbatim>\<open>prec1\<close> that \<^verbatim>\<open>validate\<close> returned.
  \<^verbatim>\<open>
  is_best = prec1 > best_prec1
  best_prec1 = max(prec1, best_prec1)
  save_checkpoint({'epoch': epoch + 1, 'arch': conf["network"]["arch"],
                   'state_dict': model.state_dict(), 'best_prec1': best_prec1,
                   'optimizer': optimizer.state_dict()}, is_best)
  \<close>
\<close>

definition epoch_end :: "string \<Rightarrow> nat \<Rightarrow> real \<Rightarrow> main_state \<Rightarrow> io_error + main_state" where
  "epoch_end arch_name ep prec1 st =
     (let is_best = prec1 > global_best_prec1 st;
          st1 = st\<lparr>global_best_prec1 := max prec1 (global_best_prec1 st)\<rparr>
      in case save_checkpoint (files st1)
                \<lparr>epoch = ep + 1, arch = arch_name, state_dict = model st1,
                 best_prec1 = global_best_prec1 st1, optimizer = optimizer_state st1\<rparr>
                is_best ''checkpoint.pth.tar'' of
           Inl e \<Rightarrow> Inl e
         | Inr fs \<Rightarrow> Inr (st1\<lparr>files := fs\<rparr>))"

text \<open>
  The epoch loop of \<^verbatim>\<open>main\<close> (lines 151 to 170). Training one epoch and evaluating are
  parameters: \<open>train_epoch\<close> changes the state, \<open>validate_top1\<close> is the value returned by
  \<^verbatim>\<open>validate\<close>.
\<close>

datatype main_error = Python error | IO io_error

fun epoch_loop ::
  "(nat \<Rightarrow> main_state \<Rightarrow> main_state) \<Rightarrow> (main_state \<Rightarrow> real) \<Rightarrow> string \<Rightarrow>
   nat list \<Rightarrow> main_state \<Rightarrow> main_error + main_state" where
  "epoch_loop train_epoch validate_top1 arch_name [] st = Inr st"
| "epoch_loop train_epoch validate_top1 arch_name (ep # eps) st =
     (let st1 = train_epoch ep st;
          prec1 = validate_top1 st1
      in case epoch_end arch_name ep prec1 st1 of
           Inl e \<Rightarrow> Inl (IO e)
         | Inr st2 \<Rightarrow> epoch_loop train_epoch validate_top1 arch_name eps st2)"

text \<open>
  \<^verbatim>\<open>main\<close> from the resume block on. With \<^verbatim>\<open>--evaluate\<close> it validates once and returns;
  otherwise \<^verbatim>\<open>range(args.start_epoch, epochs)\<close> reads the attribute \<^verbatim>\<open>start_epoch\<close> of
  \<^verbatim>\<open>args\<close> and raises \<^verbatim>\<open>AttributeError\<close> when it was never assigned.
\<close>

definition main ::
  "(weights \<Rightarrow> weights) \<Rightarrow> (nat \<Rightarrow> main_state \<Rightarrow> main_state) \<Rightarrow> (main_state \<Rightarrow> real) \<Rightarrow>
   string \<Rightarrow> string \<Rightarrow> bool \<Rightarrow> nat \<Rightarrow> main_state \<Rightarrow> main_error + main_state" where
  "main init_weights train_epoch validate_top1 arch_name resume evaluate epochs st0 =
     (let st = resume_block init_weights resume st0
      in if evaluate then Inr st
         else (case start_epoch st of
                 None \<Rightarrow> Inl (Python AttributeError)
               | Some s \<Rightarrow> epoch_loop train_epoch validate_top1 arch_name [s..<epochs] st))"

text \<open>The state in which \<^verbatim>\<open>main\<close> starts: no \<^verbatim>\<open>start_epoch\<close>, \<^verbatim>\<open>best_prec1 = 0\<close>.\<close>

definition startup :: "weights \<Rightarrow> weights \<Rightarrow> filesystem \<Rightarrow> main_state" where
  "startup w opt fs =
     \<lparr>start_epoch = None, global_best_prec1 = 0, model = w, optimizer_state = opt,
      files = fs, log = []\<rparr>"

section \<open>The top-k accuracy scorer\<close>

text \<open>
  \<^verbatim>\<open>
  def accuracy_sum(output, target, topk=(1,)):
      maxk = max(topk)
      batch_size = target.size(0)
      _, pred = output.topk(maxk, 1, True, True)
      pred = pred.t()
      correct = pred.eq(target.view(1, -1).expand_as(pred))
      res = []
      for k in topk:
          correct_k = correct[:k].view(-1).float().sum(0, keepdim=True)
          res.append(correct_k.mul_(100.0))
      return res
  \<close>
  \<^verbatim>\<open>output\<close> is a tensor of shape (batch, classes): a list of rows together with the
  number of columns, which a tensor has even when the batch is empty. \<^verbatim>\<open>target\<close> holds one
  integer label per sample; the requested ranks are natural numbers.
\<close>

record tensor2d =
  ncols :: nat
  rows :: "real list list"

definition wf_tensor :: "tensor2d \<Rightarrow> bool" where
  "wf_tensor t = list_all (\<lambda>r. length r = ncols t) (rows t)"

text \<open>
  The order in which \<^verbatim>\<open>topk(..., largest=True, sorted=True)\<close> lists the classes of one row:
  by decreasing score. The library leaves the order of equal scores open; the model puts the
  lower class index first.
\<close>

definition ranking :: "real list \<Rightarrow> nat list" where
  "ranking row = sort_key (\<lambda>c. (- (row ! c), c)) [0..<length row]"

text \<open>
  \<^verbatim>\<open>output.topk(k, 1, True, True)\<close>, the indices only: \<^verbatim>\<open>RuntimeError\<close> (selected index k out
  of range) when \<open>k\<close> exceeds the number of classes.
\<close>

definition topk :: "tensor2d \<Rightarrow> nat \<Rightarrow> error + nat list list" where
  "topk t k =
     (if ncols t < k then Inl RuntimeError
      else Inr (map (\<lambda>row. take k (ranking row)) (rows t)))"

text \<open>
  \<^verbatim>\<open>target.view(1, -1).expand_as(pred)\<close>: the labels as one row, repeated for every rank. A
  single label is broadcast over the batch; any other length mismatch raises.
\<close>

definition expand_target :: "int list \<Rightarrow> nat \<Rightarrow> error + int list" where
  "expand_target target batch =
     (if length target = batch then Inr target
      else if length target = 1 then Inr (replicate batch (hd target))
      else Inl RuntimeError)"

text \<open>
  \<^verbatim>\<open>pred.t().eq(...)\<close>: row \<open>i\<close>, column \<open>j\<close> tells whether the class ranked \<open>i\<close> for sample
  \<open>j\<close> is the label of sample \<open>j\<close>.
\<close>

definition correct_matrix :: "nat list list \<Rightarrow> int list \<Rightarrow> nat \<Rightarrow> bool list list" where
  "correct_matrix pred target maxk =
     map (\<lambda>i. map (\<lambda>j. int (pred ! j ! i) = target ! j) [0..<length pred]) [0..<maxk]"

definition accuracy_sum :: "tensor2d \<Rightarrow> int list \<Rightarrow> nat list \<Rightarrow> error + real list" where
  "accuracy_sum output target topk_arg =
     (if topk_arg = [] then Inl ValueError
      else
        let maxk = Max (set topk_arg) in
        case topk output maxk of
          Inl e \<Rightarrow> Inl e
        | Inr pred \<Rightarrow>
            (case expand_target target (length pred) of
               Inl e \<Rightarrow> Inl e
             | Inr tgt \<Rightarrow>
                 let correct = correct_matrix pred tgt maxk
                 in Inr (map (\<lambda>k. 100 * real (length (filter id (concat (take k correct)))))
                           topk_arg)))"

text \<open>
  What the specification calls "among the \<open>k\<close> highest-scored classes", stated without the
  sorting: class \<open>c'\<close> outranks class \<open>c\<close> when its score is higher, or equal with a lower
  index; a label is among the top \<open>k\<close> when it is a class of the row and fewer than \<open>k\<close>
  classes outrank it.
\<close>

definition outranks :: "real list \<Rightarrow> nat \<Rightarrow> nat \<Rightarrow> bool" where
  "outranks row c' c = (row ! c < row ! c' \<or> (row ! c' = row ! c \<and> c' < c))"

definition among_top :: "nat \<Rightarrow> real list \<Rightarrow> int \<Rightarrow> bool" where
  "among_top k row y =
     (0 \<le> y \<and> nat y < length row \<and>
      length (filter (\<lambda>c'. outranks row c' (nat y)) [0..<length row]) < k)"

text \<open>The number of samples of a batch whose label is among the top \<open>k\<close>.\<close>

definition top_count :: "nat \<Rightarrow> tensor2d \<Rightarrow> int list \<Rightarrow> nat" where
  "top_count k output target =
     length (filter (\<lambda>(row, y). among_top k row y) (zip (rows output) target))"

section \<open>Collective communication\<close>

text \<open>
  The part of \<^verbatim>\<open>torch.distributed\<close> that the program uses. \<^verbatim>\<open>main\<close> (lines 72 to 83) calls
  \<^verbatim>\<open>init_process_group\<close> exactly when the world size exceeds 1, so a process is described by
  the world size and its rank.
\<close>

record dist =
  is_initialized :: bool
  get_rank :: nat
  get_world_size :: nat

definition dist_of :: "nat \<Rightarrow> nat \<Rightarrow> dist" where
  "dist_of world_size rank =
     \<lparr>is_initialized = (1 < world_size), get_rank = rank, get_world_size = world_size\<rparr>"

text \<open>
  The collective calls a process issues, each with the ranks of its group: \<^verbatim>\<open>all_reduce\<close> on
  a group (the world group is \<^verbatim>\<open>range(world_size)\<close>) and \<^verbatim>\<open>new_group(ranks)\<close>.
\<close>

datatype call = AllReduce "nat list" | NewGroup "nat list"

text \<open>
  The value \<^verbatim>\<open>all_reduce(tensor, op=SUM, group)\<close> leaves in the tensor of process \<open>rank\<close>,
  when \<open>contrib r\<close> is the tensor that process \<open>r\<close> passes to the matching call: the sum over
  the members of the group. A process that is not a member returns at once and keeps its value.
\<close>

definition all_reduce_sum :: "nat list \<Rightarrow> nat \<Rightarrow> (nat \<Rightarrow> real) \<Rightarrow> real" where
  "all_reduce_sum grp rank contrib =
     (if rank \<in> set grp then sum_list (map contrib grp) else contrib rank)"

section \<open>Aggregating the statistics of a batch\<close>

text \<open>
  A batch as \<^verbatim>\<open>process\<close> sees it: the scores \<^verbatim>\<open>model(input)\<close>, one row per sample of
  \<^verbatim>\<open>input\<close>, the labels, and the value of \<^verbatim>\<open>criterion(output, target)\<close>, the mean loss of
  the batch. The model and the criterion themselves are outside the embedding.
\<close>

record batch =
  b_output :: tensor2d
  b_target :: "int list"
  b_loss :: real

definition batch_size :: "batch \<Rightarrow> nat" where
  "batch_size b = length (rows (b_output b))"

text \<open>The tensors \<^verbatim>\<open>loss\<close>, \<^verbatim>\<open>prec1\<close>, \<^verbatim>\<open>prec5\<close> and \<^verbatim>\<open>count\<close> of one process before any reduction.\<close>

record stats =
  s_loss :: real
  s_prec1 :: real
  s_prec5 :: real
  s_count :: nat

text \<open>
  \<^verbatim>\<open>
  prec1, prec5 = accuracy_sum(output.data, target, topk=(1, 5))
  loss *= target.shape[0]
  count = target.new_tensor([target.shape[0]], dtype=torch.long)
  \<close>
\<close>

definition local_stats :: "batch \<Rightarrow> error + stats" where
  "local_stats b =
     (case accuracy_sum (b_output b) (b_target b) [1, 5] of
        Inl e \<Rightarrow> Inl e
      | Inr res \<Rightarrow>
          Inr \<lparr>s_loss = b_loss b * real (length (b_target b)),
               s_prec1 = res ! 0, s_prec5 = res ! 1,
               s_count = length (b_target b)\<rparr>)"

text \<open>
  The meters of \<^verbatim>\<open>validate\<close> and \<^verbatim>\<open>train\<close> that hold statistics, and the collective calls issued
  so far. The meters for elapsed time and the log lines are left out.
\<close>

record val_state =
  losses :: meter
  top1 :: meter
  top5 :: meter
  calls :: "call list"

text \<open>
  One tensor after \<^verbatim>\<open>if all_reduce: all_reduce(val)\<close>. \<open>mine\<close> are the statistics of this
  process and \<open>peers r\<close> those that process \<open>r\<close> passes to the matching calls; \<open>grp\<close> is
  \<open>None\<close> when \<^verbatim>\<open>all_reduce\<close> is \<^verbatim>\<open>None\<close>.
\<close>

definition reduced :: "nat \<Rightarrow> stats \<Rightarrow> (nat \<Rightarrow> stats) \<Rightarrow> nat list option \<Rightarrow> (stats \<Rightarrow> real) \<Rightarrow> real" where
  "reduced rank mine peers grp f =
     (case grp of
        None \<Rightarrow> f mine
      | Some g \<Rightarrow> all_reduce_sum g rank (\<lambda>r. if r = rank then f mine else f (peers r)))"

text \<open>
  \<^verbatim>\<open>
  if all_reduce:
    all_reduce(count)
  for meter,val in (losses,loss), (top1,prec1), (top5,prec5):
    if all_reduce:
      all_reduce(val)
    val /= count.item()
    meter.update(val.item(), count.item())
  \<close>
  Dividing a tensor by a zero count gives an infinity or NaN, which the model does not have;
  the theorems below are about batches with at least one sample.
\<close>

definition aggregate :: "nat \<Rightarrow> stats \<Rightarrow> (nat \<Rightarrow> stats) \<Rightarrow> nat list option \<Rightarrow> val_state \<Rightarrow> error + val_state" where
  "aggregate rank mine peers grp st =
     (let cnt = reduced rank mine peers grp (\<lambda>s. real (s_count s));
          issued = (case grp of None \<Rightarrow> [] | Some g \<Rightarrow> replicate 4 (AllReduce g))
      in case update (losses st) (reduced rank mine peers grp s_loss / cnt) cnt of
           Inl e \<Rightarrow> Inl e
         | Inr l \<Rightarrow>
            (case update (top1 st) (reduced rank mine peers grp s_prec1 / cnt) cnt of
               Inl e \<Rightarrow> Inl e
             | Inr t1 \<Rightarrow>
                (case update (top5 st) (reduced rank mine peers grp s_prec5 / cnt) cnt of
                   Inl e \<Rightarrow> Inl e
                 | Inr t5 \<Rightarrow>
                     Inr (st\<lparr>losses := l, top1 := t1, top5 := t5,
                             calls := calls st @ issued\<rparr>))))"

text \<open>The local function \<^verbatim>\<open>process(input, target, all_reduce)\<close> of \<^verbatim>\<open>validate\<close> (lines 263 to 283).\<close>

definition process :: "nat \<Rightarrow> batch \<Rightarrow> (nat \<Rightarrow> stats) \<Rightarrow> nat list option \<Rightarrow> val_state \<Rightarrow> error + val_state" where
  "process rank b peers grp st =
     (case local_stats b of
        Inl e \<Rightarrow> Inl e
      | Inr mine \<Rightarrow> aggregate rank mine peers grp st)"

text \<open>
  The statistics of one training step (lines 209 to 220 of \<^verbatim>\<open>train\<close>): the same computation,
  reducing over the world group whenever the process group is initialised.
\<close>

definition train_metrics :: "dist \<Rightarrow> batch \<Rightarrow> (nat \<Rightarrow> stats) \<Rightarrow> val_state \<Rightarrow> error + val_state" where
  "train_metrics d b peers st =
     process (get_rank d) b peers
       (if is_initialized d then Some [0..<get_world_size d] else None) st"

text \<open>\<^verbatim>\<open>train\<close> and \<^verbatim>\<open>validate\<close> both start from newly constructed meters.\<close>

definition fresh_meters :: val_state where
  "fresh_meters = \<lparr>losses = AverageMeter, top1 = AverageMeter, top5 = AverageMeter, calls = []\<rparr>"

fun train_loop :: "dist \<Rightarrow> (batch \<times> (nat \<Rightarrow> stats)) list \<Rightarrow> val_state \<Rightarrow> error + val_state" where
  "train_loop d [] st = Inr st"
| "train_loop d ((b, peers) # rest) st =
     (case train_metrics d b peers st of
        Inl e \<Rightarrow> Inl e
      | Inr st' \<Rightarrow> train_loop d rest st')"

definition train :: "dist \<Rightarrow> (batch \<times> (nat \<Rightarrow> stats)) list \<Rightarrow> error + val_state" where
  "train d train_loader = train_loop d train_loader fresh_meters"

section \<open>The evaluation pass\<close>

text \<open>
  \<^verbatim>\<open>
  all_reduce = partial(dist.all_reduce, op=dist.ReduceOp.SUM) if dist.is_initialized() else None
  last_group_size = len(val_loader.dataset) % world_size
  for i, (input, target) in enumerate(val_loader):
    if input.shape[0] > 1 or last_group_size == 0:
      process(input, target, all_reduce)
    else:
      process(input, target, partial(dist.all_reduce, op=dist.ReduceOp.SUM,
                                     group=dist.new_group(range(last_group_size))))
  \<close>
  The loader of a process is the list of its batches, each with the statistics its peers pass
  to the calls of that iteration. \<^verbatim>\<open>new_group\<close> is called before \<^verbatim>\<open>process\<close> runs, and raises
  when no process group was initialised. The result is the state with which the loop ends
  once every call it has issued has returned; whether the calls of a job return is the
  subject of the section on blocking collectives.
\<close>

fun validate_loop ::
  "dist \<Rightarrow> nat \<Rightarrow> nat \<Rightarrow> (batch \<times> (nat \<Rightarrow> stats)) list \<Rightarrow> val_state \<Rightarrow> error + val_state" where
  "validate_loop d rank last_group_size [] st = Inr st"
| "validate_loop d rank last_group_size ((b, peers) # rest) st =
     (if batch_size b > 1 \<or> last_group_size = 0 then
        (case process rank b peers
                (if is_initialized d then Some [0..<get_world_size d] else None) st of
           Inl e \<Rightarrow> Inl e
         | Inr st' \<Rightarrow> validate_loop d rank last_group_size rest st')
      else if \<not> is_initialized d then Inl RuntimeError
      else
        (case process rank b peers (Some [0..<last_group_size])
                (st\<lparr>calls := calls st @ [NewGroup [0..<last_group_size]]\<rparr>) of
           Inl e \<Rightarrow> Inl e
         | Inr st' \<Rightarrow> validate_loop d rank last_group_size rest st'))"

text \<open>
  \<^verbatim>\<open>validate\<close>, with the lines after the loop:
  \<^verbatim>\<open>
  rank = dist.get_rank() if dist.is_initialized() else 0
  world_size = dist.get_world_size() if dist.is_initialized() else 1
  ...
  if input.shape[0]==1 and rank > last_group_size > 0:
    dist.new_group(range(last_group_size))
  ...
  return top1.avg
  \<close>
  \<^verbatim>\<open>input\<close> is the loop variable: it is unbound when the loader yielded no batch. The result
  is the final state; the value Python returns is \<open>avg (top1 st)\<close>.
\<close>

definition validate :: "dist \<Rightarrow> nat \<Rightarrow> (batch \<times> (nat \<Rightarrow> stats)) list \<Rightarrow> error + val_state" where
  "validate d dataset_len val_loader =
     (let rank = (if is_initialized d then get_rank d else 0);
          world_size = (if is_initialized d then get_world_size d else 1);
          last_group_size = dataset_len mod world_size
      in case validate_loop d rank last_group_size val_loader fresh_meters of
           Inl e \<Rightarrow> Inl e
         | Inr st \<Rightarrow>
             (case val_loader of
                [] \<Rightarrow> Inl UnboundLocalError
              | _ \<Rightarrow>
                  if batch_size (fst (last val_loader)) = 1
                     \<and> last_group_size < rank \<and> 0 < last_group_size
                  then Inr (st\<lparr>calls := calls st @ [NewGroup [0..<last_group_size]]\<rparr>)
                  else Inr st))"

section \<open>The evaluation pass of all processes\<close>

text \<open>
  Modelled from the spec: \<^verbatim>\<open>TestDistributedSampler\<close> (\<^verbatim>\<open>dataset/sampler.py\<close>) is not among the
  sources. By section 4.4 of the specification, with \<open>R\<close> the dataset size modulo the world
  size, "exactly \<open>R\<close> workers (ranks \<open>0..R-1\<close> by convention) receive one final short batch; the
  remaining workers receive none": process \<open>rank\<close> is given the samples \<open>rank\<close>,
  \<open>rank + num_replicas\<close>, \<open>rank + 2 * num_replicas\<close>, and so on.
\<close>

definition sampler_indices :: "nat \<Rightarrow> nat \<Rightarrow> nat \<Rightarrow> nat list" where
  "sampler_indices dataset_len num_replicas rank =
     filter (\<lambda>i. i mod num_replicas = rank) [0..<dataset_len]"

text \<open>
  The batches of a \<^verbatim>\<open>DataLoader\<close> with a positive \<^verbatim>\<open>batch_size\<close> (and the default
  \<^verbatim>\<open>drop_last=False\<close>): consecutive chunks, the last one possibly shorter.
\<close>

definition batches :: "nat \<Rightarrow> 'a list \<Rightarrow> 'a list list" where
  "batches batch_sz xs =
     map (\<lambda>k. take batch_sz (drop (k * batch_sz) xs)) [0..<(length xs + batch_sz - 1) div batch_sz]"

text \<open>
  A sample of the validation set with what the model and the criterion make of it: its row of
  scores and its loss. The criterion's value for a batch is the mean of the losses.
\<close>

record sample =
  scores :: "real list"
  label :: int
  sample_loss :: real

definition make_batch :: "nat \<Rightarrow> sample list \<Rightarrow> batch" where
  "make_batch classes ss =
     \<lparr>b_output = \<lparr>ncols = classes, rows = map scores ss\<rparr>,
      b_target = map label ss,
      b_loss = sum_list (map sample_loss ss) / real (length ss)\<rparr>"

definition val_batches :: "nat \<Rightarrow> sample list \<Rightarrow> nat \<Rightarrow> nat \<Rightarrow> nat \<Rightarrow> batch list" where
  "val_batches classes dataset world_size batch_sz rank =
     map (make_batch classes)
       (batches batch_sz
          (map (\<lambda>i. dataset ! i) (sampler_indices (length dataset) world_size rank)))"

text \<open>
  What process \<open>r\<close> contributes to the collective calls of iteration \<open>i\<close>: the statistics of
  its own batch \<open>i\<close>.
\<close>

definition peer_stats :: "(nat \<Rightarrow> batch list) \<Rightarrow> nat \<Rightarrow> nat \<Rightarrow> stats" where
  "peer_stats loaders i r =
     (if i < length (loaders r) then
        (case local_stats (loaders r ! i) of
           Inr s \<Rightarrow> s
         | Inl e \<Rightarrow> \<lparr>s_loss = 0, s_prec1 = 0, s_prec5 = 0, s_count = 0\<rparr>)
      else \<lparr>s_loss = 0, s_prec1 = 0, s_prec5 = 0, s_count = 0\<rparr>)"

definition world_validate :: "nat \<Rightarrow> sample list \<Rightarrow> nat \<Rightarrow> nat \<Rightarrow> (error + val_state) list" where
  "world_validate classes dataset world_size batch_sz =
     (let loaders = val_batches classes dataset world_size batch_sz
      in map (\<lambda>rank.
                validate (dist_of world_size rank) (length dataset)
                  (map (\<lambda>i. (loaders rank ! i, peer_stats loaders i))
                     [0..<length (loaders rank)]))
           [0..<world_size])"

text \<open>The calls a process has issued when \<^verbatim>\<open>validate\<close> returns.\<close>

definition issued :: "error + val_state \<Rightarrow> call list" where
  "issued r = (case r of Inl e \<Rightarrow> [] | Inr st \<Rightarrow> calls st)"

section \<open>Blocking collectives\<close>

text \<open>
  Every collective call blocks its caller until each process it involves has issued the
  matching call. \<^verbatim>\<open>new_group\<close> involves all processes of the job, members of the new group or
  not; \<^verbatim>\<open>all_reduce\<close> on a group involves the members of the group, and returns at once in a
  process that is not a member. The state of a job is the list, by rank, of the calls each
  process has still to issue, the first being the one it is waiting in.
\<close>

fun joins :: "nat \<Rightarrow> nat \<Rightarrow> call \<Rightarrow> nat list" where
  "joins world_size r (NewGroup g) = [0..<world_size]"
| "joins world_size r (AllReduce g) = (if r \<in> set g then g else [r])"

definition pending :: "call list list \<Rightarrow> nat \<Rightarrow> call option" where
  "pending ts r =
     (if r < length ts then (case ts ! r of [] \<Rightarrow> None | c # cs \<Rightarrow> Some c) else None)"

definition enabled :: "nat \<Rightarrow> call list list \<Rightarrow> nat \<Rightarrow> bool" where
  "enabled world_size ts r =
     (case pending ts r of
        None \<Rightarrow> False
      | Some c \<Rightarrow> list_all (\<lambda>p. pending ts p = Some c) (joins world_size r c))"

definition complete :: "nat \<Rightarrow> call list list \<Rightarrow> nat \<Rightarrow> call list list" where
  "complete world_size ts r =
     (case pending ts r of
        None \<Rightarrow> ts
      | Some c \<Rightarrow>
          map (\<lambda>p. if p \<in> set (joins world_size r c) then tl (ts ! p) else ts ! p)
            [0..<length ts])"

text \<open>
  Running the job: while some process is in a call that can return, the matching calls of
  the lowest such process return. Every step removes a call, so the number of calls is
  enough fuel; the result is the state in which no call can return.
\<close>

fun run :: "nat \<Rightarrow> nat \<Rightarrow> call list list \<Rightarrow> call list list" where
  "run 0 world_size ts = ts"
| "run (Suc fuel) world_size ts =
     (case filter (enabled world_size ts) [0..<length ts] of
        [] \<Rightarrow> ts
      | r # rs \<Rightarrow> run fuel world_size (complete world_size ts r))"

definition finish :: "nat \<Rightarrow> call list list \<Rightarrow> call list list" where
  "finish world_size ts = run (sum_list (map length ts)) world_size ts"

text \<open>A process is blocked when it waits in a call that cannot return.\<close>

definition blocked :: "nat \<Rightarrow> call list list \<Rightarrow> nat \<Rightarrow> bool" where
  "blocked world_size ts r = (pending ts r \<noteq> None \<and> \<not> enabled world_size ts r)"

text \<open>A sample with five classes, used to run the evaluation pass on concrete datasets.\<close>

definition example_sample :: sample where
  "example_sample = \<lparr>scores = [5, 4, 3, 2, 1], label = 0, sample_loss = 1\<rparr>"



section \<open>Statistics computed locally\<close>

text \<open>
  What one process computes from its own batches alone: the sum of a local statistic over the
  batches divided by the number of samples in them.
\<close>

definition local_mean :: "(stats \<Rightarrow> real) \<Rightarrow> stats list \<Rightarrow> real" where
  "local_mean f ss = (\<Sum>s\<leftarrow>ss. f s) / (\<Sum>s\<leftarrow>ss. real (s_count s))"

text \<open>The updates a meter receives when each batch is processed without any reduction.\<close>

definition meter_feed :: "(stats \<Rightarrow> real) \<Rightarrow> stats list \<Rightarrow> (real \<times> real) list" where
  "meter_feed f ss = map (\<lambda>s. (f s / real (s_count s), real (s_count s))) ss"

section \<open>Properties of the meter\<close>

lemma reset_fresh: "reset m = AverageMeter"
  by (simp add: reset_def AverageMeter_def)

lemma weights_ok_Cons:
  "weights_ok c ((v, n) # xs) \<longleftrightarrow> c + n \<noteq> 0 \<and> weights_ok (c + n) xs"
proof
  assume ok: "weights_ok c ((v, n) # xs)"
  have "c + weight_total (take 1 ((v, n) # xs)) \<noteq> 0"
    using ok unfolding weights_ok_def by (simp del: take_Suc_Cons)
  then have first: "c + n \<noteq> 0" by (simp add: weight_total_def)
  have "c + n + weight_total (take k xs) \<noteq> 0" if "k \<in> {1..length xs}" for k
  proof -
    from that have "Suc k \<in> {1..length ((v, n) # xs)}" by simp
    with ok have "c + weight_total (take (Suc k) ((v, n) # xs)) \<noteq> 0"
      unfolding weights_ok_def by blast
    then show ?thesis by (simp add: weight_total_def add.assoc)
  qed
  with first show "c + n \<noteq> 0 \<and> weights_ok (c + n) xs"
    by (simp add: weights_ok_def)
next
  assume r: "c + n \<noteq> 0 \<and> weights_ok (c + n) xs"
  show "weights_ok c ((v, n) # xs)"
    unfolding weights_ok_def
  proof
    fix k assume k: "k \<in> {1..length ((v, n) # xs)}"
    show "c + weight_total (take k ((v, n) # xs)) \<noteq> 0"
    proof (cases k)
      case 0
      with k show ?thesis by simp
    next
      case (Suc j)
      show ?thesis
      proof (cases j)
        case 0
        with Suc r show ?thesis by (simp add: weight_total_def)
      next
        case (Suc i)
        with \<open>k = Suc j\<close> k have "j \<in> {1..length xs}" by simp
        with r have "c + n + weight_total (take j xs) \<noteq> 0"
          by (simp add: weights_ok_def)
        with \<open>k = Suc j\<close> show ?thesis by (simp add: weight_total_def add.assoc)
      qed
    qed
  qed
qed

lemma update_ok:
  "count m + n \<noteq> 0 \<Longrightarrow>
   update m v n = Inr \<lparr>val = v, avg = (sum_m m + v * n) / (count m + n),
                       sum_m = sum_m m + v * n, count = count m + n\<rparr>"
  by (simp add: update_def py_div_def)

lemma update_zero: "count m + n = 0 \<Longrightarrow> update m v n = Inl ZeroDivisionError"
  by (simp add: update_def py_div_def)

lemma updates_general:
  "weights_ok (count m) xs \<Longrightarrow> xs \<noteq> [] \<Longrightarrow>
   updates m xs = Inr \<lparr>val = fst (last xs),
                       avg = (sum_m m + weighted_total xs) / (count m + weight_total xs),
                       sum_m = sum_m m + weighted_total xs,
                       count = count m + weight_total xs\<rparr>"
proof (induction xs arbitrary: m)
  case Nil
  then show ?case by simp
next
  case (Cons x xs)
  obtain v n where x: "x = (v, n)" by (cases x)
  from Cons.prems x have nz: "count m + n \<noteq> 0" and ok: "weights_ok (count m + n) xs"
    by (simp_all add: weights_ok_Cons)
  let ?m' = "\<lparr>val = v, avg = (sum_m m + v * n) / (count m + n),
              sum_m = sum_m m + v * n, count = count m + n\<rparr>"
  have step: "update m v n = Inr ?m'" using nz by (rule update_ok)
  show ?case
  proof (cases "xs = []")
    case True
    with x step show ?thesis by (simp add: weighted_total_def weight_total_def)
  next
    case False
    have "updates ?m' xs = Inr \<lparr>val = fst (last xs),
            avg = (sum_m ?m' + weighted_total xs) / (count ?m' + weight_total xs),
            sum_m = sum_m ?m' + weighted_total xs,
            count = count ?m' + weight_total xs\<rparr>"
      by (rule Cons.IH) (use ok False in simp_all)
    with x step False show ?thesis
      by (simp add: weighted_total_def weight_total_def add.assoc)
  qed
qed

text \<open>
  Claim C6, as amended. For every non-empty sequence of \<^verbatim>\<open>update(value, weight)\<close> calls made
  after a \<^verbatim>\<open>reset()\<close> in which the accumulated weight is non-zero after every call, all calls
  return, and afterwards the average is the accumulated sum of value times weight divided by
  the accumulated weight, the current value is the last value passed, and the two
  accumulators hold those two sums. Since every prefix of such a sequence is such a sequence,
  this holds after each update. For any sequence at all, running it after \<^verbatim>\<open>reset()\<close> gives
  the same outcome as running it on a newly constructed meter.
\<close>

theorem meter_average:
  assumes "xs \<noteq> []" and "weights_ok 0 xs"
  shows "updates (reset m) xs =
           Inr \<lparr>val = fst (last xs), avg = weighted_total xs / weight_total xs,
                sum_m = weighted_total xs, count = weight_total xs\<rparr>
         \<and> updates (reset m) ys = updates AverageMeter ys"
proof -
  have "weights_ok (count AverageMeter) xs"
    using assms(2) by (simp add: AverageMeter_def reset_def)
  from updates_general [OF this assms(1)] show ?thesis
    by (simp add: reset_fresh) (simp add: AverageMeter_def reset_def)
qed

theorem meter_average_witness:
  "weights_ok 0 [(2, 1), (4, 3)] \<and>
   updates (reset \<lparr>val = 7, avg = 7, sum_m = 7, count = 1\<rparr>) [(2, 1), (4, 3)] =
     Inr \<lparr>val = 4, avg = 7 / 2, sum_m = 14, count = 4\<rparr>"
proof -
  have ok: "weights_ok 0 [(2, 1), (4, 3)]"
    by (simp add: weights_ok_Cons) (simp add: weights_ok_def)
  have ne: "[(2, 1), (4, 3 :: real)] \<noteq> ([] :: (real \<times> real) list)" by simp
  from meter_average [OF ne ok, of "\<lparr>val = 7, avg = 7, sum_m = 7, count = 1\<rparr>" "[]"] ok
  show ?thesis by (simp add: weighted_total_def weight_total_def del: updates.simps)
qed

text \<open>
  Claim C6 as stated fails when the accumulated weight reaches zero: on a new meter,
  \<^verbatim>\<open>update(5, 0)\<close> raises \<^verbatim>\<open>ZeroDivisionError\<close>, so no average is produced.
\<close>

theorem meter_zero_weight_counterexample:
  "updates AverageMeter [(5, 0)] = Inl ZeroDivisionError"
  by (simp add: update_def py_div_def AverageMeter_def reset_def)

section \<open>Properties of checkpointing and resuming\<close>

lemma save_checkpoint_default:
  "save_checkpoint fs state is_best ''checkpoint.pth.tar'' =
     Inr (if is_best then fs(''checkpoint.pth.tar'' \<mapsto> state, ''model_best.pth.tar'' \<mapsto> state)
          else fs(''checkpoint.pth.tar'' \<mapsto> state))"
  by (simp add: save_checkpoint_def)

text \<open>
  Claim C5. With the default file name, \<^verbatim>\<open>save_checkpoint\<close> always stores the state under
  \<^verbatim>\<open>checkpoint.pth.tar\<close>, and stores it under \<^verbatim>\<open>model_best.pth.tar\<close> as well exactly when
  \<^verbatim>\<open>is_best\<close> holds; otherwise the best file keeps what it held. At the end of an epoch
  \<^verbatim>\<open>is_best\<close> is \<^verbatim>\<open>prec1 > best_prec1\<close>: the best file receives the new checkpoint when
  the score is strictly above the best one so far, and is left as it was when the score is
  equal or lower.
\<close>

theorem checkpoint_best_copy:
  "save_checkpoint fs state is_best ''checkpoint.pth.tar'' =
     Inr (if is_best then fs(''checkpoint.pth.tar'' \<mapsto> state, ''model_best.pth.tar'' \<mapsto> state)
          else fs(''checkpoint.pth.tar'' \<mapsto> state))
   \<and> (let ckpt = \<lparr>epoch = ep + 1, arch = a, state_dict = model st,
                   best_prec1 = max prec1 (global_best_prec1 st),
                   optimizer = optimizer_state st\<rparr>
      in epoch_end a ep prec1 st =
           Inr (st\<lparr>global_best_prec1 := max prec1 (global_best_prec1 st),
                   files := (if global_best_prec1 st < prec1
                             then (files st)(''checkpoint.pth.tar'' \<mapsto> ckpt,
                                             ''model_best.pth.tar'' \<mapsto> ckpt)
                             else (files st)(''checkpoint.pth.tar'' \<mapsto> ckpt))\<rparr>))"
  by (simp add: save_checkpoint_default epoch_end_def Let_def)

text \<open>
  Claim C4, evaluated on the code. Started with a resume path at which there is no file and
  without \<^verbatim>\<open>--evaluate\<close>, \<^verbatim>\<open>main\<close> logs the warning, leaves the weights as they were
  and \<^verbatim>\<open>args.start_epoch\<close> unassigned, and then fails with \<^verbatim>\<open>AttributeError\<close> at the epoch
  loop. Without a resume path the weights are initialised and \<^verbatim>\<open>start_epoch\<close> is 0.
\<close>

theorem resume_missing_checkpoint_fails:
  "resume_block iw ''missing.pth.tar'' (startup w opt Map.empty) =
     (startup w opt Map.empty)
       \<lparr>log := [Warning (''=> no checkpoint found at '' @ quoted ''missing.pth.tar'')]\<rparr>
   \<and> main iw tr va a ''missing.pth.tar'' False n (startup w opt Map.empty) =
       Inl (Python AttributeError)
   \<and> resume_block iw [] (startup w opt Map.empty) =
       (startup w opt Map.empty)\<lparr>model := iw w, start_epoch := Some 0\<rparr>"
  by (simp add: main_def resume_block_def startup_def)

section \<open>Properties of the scorer\<close>

lemma ranking_set: "set (ranking row) = {0..<length row}"
  by (simp add: ranking_def)

lemma ranking_distinct: "distinct (ranking row)"
  by (simp add: ranking_def)

lemma ranking_length: "length (ranking row) = length row"
  by (simp add: ranking_def)

lemma key_less: "((- (row ! a), a) < (- (row ! b), b)) = outranks row a b"
  by (auto simp: outranks_def)

lemma ranking_sorted: "sorted_wrt (outranks row) (ranking row)"
proof -
  let ?key = "\<lambda>c. (- (row ! c), c)"
  have inj: "inj_on ?key (set (ranking row))" by (rule inj_onI) simp
  have "sorted (map ?key (ranking row))"
    unfolding ranking_def by (rule sorted_sort_key)
  moreover have "distinct (map ?key (ranking row))"
    using ranking_distinct inj by (simp add: distinct_map)
  ultimately have "sorted_wrt (<) (map ?key (ranking row))"
    by (simp add: strict_sorted_iff)
  then have "sorted_wrt (\<lambda>a b. ?key a < ?key b) (ranking row)"
    by (simp only: sorted_wrt_map)
  moreover have "(\<lambda>a b. ?key a < ?key b) = outranks row"
    by (intro ext) (rule key_less)
  ultimately show ?thesis by (simp only:)
qed

lemma outranks_irrefl: "\<not> outranks row c c"
  by (simp add: outranks_def)

lemma outranks_asym: "outranks row a b \<Longrightarrow> \<not> outranks row b a"
  by (auto simp: outranks_def)

lemma ranking_position:
  assumes i: "i < length row"
  shows "length (filter (\<lambda>c'. outranks row c' (ranking row ! i)) [0..<length row]) = i"
proof -
  let ?l = "ranking row"
  have len: "length ?l = length row" by (rule ranking_length)
  have srt: "\<And>a b. a < b \<Longrightarrow> b < length ?l \<Longrightarrow> outranks row (?l ! a) (?l ! b)"
    using ranking_sorted [of row] by (simp add: sorted_wrt_iff_nth_less)
  have "{c'. outranks row c' (?l ! i)} \<inter> set [0..<length row] = set (take i ?l)"
  proof (rule set_eqI, rule iffI)
    fix c assume "c \<in> {c'. outranks row c' (?l ! i)} \<inter> set [0..<length row]"
    then have o: "outranks row c (?l ! i)" and "c \<in> set ?l"
      by (simp_all add: ranking_set)
    then obtain j where j: "j < length ?l" "?l ! j = c"
      by (auto simp: in_set_conv_nth)
    have "j < i"
    proof (rule ccontr)
      assume "\<not> j < i"
      then consider "j = i" | "i < j" by linarith
      then show False
      proof cases
        case 1 with o j show ?thesis by (simp add: outranks_irrefl)
      next
        case 2
        from srt [OF 2 j(1)] j(2) o show ?thesis by (auto dest: outranks_asym)
      qed
    qed
    with j i len show "c \<in> set (take i ?l)"
      by (auto simp: in_set_conv_nth)
  next
    fix c assume "c \<in> set (take i ?l)"
    then obtain j where j: "j < i" "j < length ?l" "?l ! j = c"
      by (auto simp: in_set_conv_nth)
    from i len have "i < length ?l" by simp
    from srt [OF j(1) this] j(3) have "outranks row c (?l ! i)" by simp
    moreover from j have "c \<in> set ?l" by auto
    ultimately show "c \<in> {c'. outranks row c' (?l ! i)} \<inter> set [0..<length row]"
      by (simp add: ranking_set)
  qed
  moreover have "card (set (take i ?l)) = i"
    using i len ranking_distinct [of row] by (simp add: distinct_card)
  ultimately show ?thesis by (simp add: distinct_length_filter)
qed

lemma among_top_iff:
  assumes c: "c < length row"
  shows "c \<in> set (take k (ranking row)) \<longleftrightarrow>
         length (filter (\<lambda>c'. outranks row c' c) [0..<length row]) < k"
proof -
  let ?l = "ranking row"
  from c have "c \<in> set ?l" by (simp add: ranking_set)
  then obtain i where i: "i < length ?l" "?l ! i = c"
    by (auto simp: in_set_conv_nth)
  then have il: "i < length row" by (simp add: ranking_length)
  have pos: "length (filter (\<lambda>c'. outranks row c' c) [0..<length row]) = i"
    using ranking_position [OF il] i(2) by simp
  have "c \<in> set (take k ?l) \<longleftrightarrow> i < k"
  proof
    assume "c \<in> set (take k ?l)"
    then obtain j where j: "j < k" "j < length ?l" "?l ! j = c"
      by (auto simp: in_set_conv_nth)
    with i ranking_distinct [of row] have "j = i"
      by (metis nth_eq_iff_index_eq)
    with j show "i < k" by simp
  next
    assume "i < k"
    with i show "c \<in> set (take k ?l)" by (auto simp: in_set_conv_nth)
  qed
  with pos show ?thesis by simp
qed

lemma label_among_top:
  "y \<in> int ` set (take k (ranking row)) \<longleftrightarrow> among_top k row y"
proof (cases "0 \<le> y \<and> nat y < length row")
  case True
  then have "y \<in> int ` set (take k (ranking row)) \<longleftrightarrow> nat y \<in> set (take k (ranking row))"
    by (metis image_iff int_nat_eq nat_int)
  with True show ?thesis by (simp add: among_top_def among_top_iff)
next
  case False
  have "y \<notin> int ` set (take k (ranking row))"
  proof
    assume "y \<in> int ` set (take k (ranking row))"
    then obtain c where "c \<in> set (take k (ranking row))" "y = int c" by auto
    then have "c \<in> set (ranking row)" "y = int c" by (auto dest: in_set_takeD)
    with False show False by (simp add: ranking_set)
  qed
  with False show ?thesis by (auto simp: among_top_def)
qed

lemma length_filter_sum: "length (filter P xs) = (\<Sum>x\<leftarrow>xs. if P x then 1 else 0)"
  by (induction xs) simp_all

lemma hits_distinct:
  "distinct q \<Longrightarrow> length (filter (\<lambda>x. int x = y) q) = (if y \<in> int ` set q then 1 else 0)"
  by (induction q) (auto simp: filter_empty_conv)

lemma column_hits:
  assumes "distinct p" and "k \<le> length p"
  shows "(\<Sum>i<k. if int (p ! i) = y then 1 else 0 :: nat) =
         (if y \<in> int ` set (take k p) then 1 else 0)"
proof -
  have "(\<Sum>i<k. if int (p ! i) = y then 1 else 0 :: nat) =
        (\<Sum>i<length (take k p). if int (take k p ! i) = y then 1 else 0)"
    using assms(2) by simp
  also have "\<dots> = (\<Sum>x\<leftarrow>take k p. if int x = y then 1 else 0)"
    by (simp add: sum_list_sum_nth atLeast0LessThan)
  also have "\<dots> = length (filter (\<lambda>x. int x = y) (take k p))"
    by (simp add: length_filter_sum)
  also have "\<dots> = (if y \<in> int ` set (take k p) then 1 else 0)"
    using assms(1) by (simp add: hits_distinct)
  finally show ?thesis .
qed

lemma correct_count:
  assumes dist: "\<And>j. j < length pred \<Longrightarrow> distinct (pred ! j) \<and> length (pred ! j) = maxk"
    and k: "k \<le> maxk"
  shows "length (filter id (concat (take k (correct_matrix pred tgt maxk)))) =
         length (filter (\<lambda>j. tgt ! j \<in> int ` set (take k (pred ! j))) [0..<length pred])"
proof -
  let ?b = "length pred"
  let ?hit = "\<lambda>i j. if int (pred ! j ! i) = tgt ! j then 1 else 0 :: nat"
  have tk: "take k (correct_matrix pred tgt maxk) =
            map (\<lambda>i. map (\<lambda>j. int (pred ! j ! i) = tgt ! j) [0..<?b]) [0..<k]"
    using k by (simp add: correct_matrix_def take_map min_def)
  have "length (filter id (concat (take k (correct_matrix pred tgt maxk)))) =
        (\<Sum>i\<leftarrow>[0..<k]. length (filter id (map (\<lambda>j. int (pred ! j ! i) = tgt ! j) [0..<?b])))"
    unfolding tk by (simp add: filter_concat length_concat comp_def)
  also have "\<dots> = (\<Sum>i\<leftarrow>[0..<k]. \<Sum>j\<leftarrow>[0..<?b]. ?hit i j)"
    by (simp add: length_filter_map length_filter_sum comp_def)
  also have "\<dots> = (\<Sum>i<k. \<Sum>j<?b. ?hit i j)"
    by (simp add: interv_sum_list_conv_sum_set_nat atLeast0LessThan)
  also have "\<dots> = (\<Sum>j<?b. \<Sum>i<k. ?hit i j)"
    by (rule sum.swap)
  also have "\<dots> = (\<Sum>j<?b. if tgt ! j \<in> int ` set (take k (pred ! j)) then 1 else 0)"
  proof (rule sum.cong)
    fix j assume "j \<in> {..<?b}"
    then have "distinct (pred ! j)" "k \<le> length (pred ! j)"
      using dist k by simp_all
    then show "(\<Sum>i<k. ?hit i j) = (if tgt ! j \<in> int ` set (take k (pred ! j)) then 1 else 0)"
      by (rule column_hits)
  qed simp
  also have "\<dots> = length (filter (\<lambda>j. tgt ! j \<in> int ` set (take k (pred ! j))) [0..<?b])"
    by (simp add: length_filter_sum interv_sum_list_conv_sum_set_nat atLeast0LessThan)
  finally show ?thesis .
qed

lemma zip_filter_index:
  assumes "length xs = length ys"
  shows "length (filter (\<lambda>j. Q (xs ! j) (ys ! j)) [0..<length xs]) =
         length (filter (\<lambda>(x, y). Q x y) (zip xs ys))"
proof -
  have "zip xs ys = map (\<lambda>j. (xs ! j, ys ! j)) [0..<length xs]"
    using assms by (intro nth_equalityI) simp_all
  then show ?thesis by (simp add: length_filter_map comp_def)
qed

lemma among_top_mono: "k \<le> k' \<Longrightarrow> among_top k row y \<Longrightarrow> among_top k' row y"
  by (simp add: among_top_def)

lemma length_filter_mono:
  "(\<And>x. x \<in> set xs \<Longrightarrow> P x \<Longrightarrow> Q x) \<Longrightarrow> length (filter P xs) \<le> length (filter Q xs)"
  by (induction xs) auto

lemma top_count_mono: "k \<le> k' \<Longrightarrow> top_count k output target \<le> top_count k' output target"
  unfolding top_count_def
  by (rule length_filter_mono) (auto intro: among_top_mono)

lemma accuracy_sum_value:
  assumes wf: "wf_tensor output" and ne: "topk_arg \<noteq> []"
    and range: "Max (set topk_arg) \<le> ncols output"
    and len: "length target = length (rows output)"
  shows "accuracy_sum output target topk_arg =
           Inr (map (\<lambda>k. 100 * real (top_count k output target)) topk_arg)"
proof -
  let ?maxk = "Max (set topk_arg)"
  let ?pred = "map (\<lambda>row. take ?maxk (ranking row)) (rows output)"
  have tk: "topk output ?maxk = Inr ?pred"
    using range by (simp add: topk_def)
  have ex: "expand_target target (length ?pred) = Inr target"
    using len by (simp add: expand_target_def)
  have row_len: "length (rows output ! j) = ncols output" if "j < length (rows output)" for j
    using wf that by (simp add: wf_tensor_def list_all_length)
  have pred_ok: "distinct (?pred ! j) \<and> length (?pred ! j) = ?maxk" if "j < length ?pred" for j
    using that range row_len [of j] by (simp add: ranking_distinct ranking_length)
  have count: "length (filter id (concat (take k (correct_matrix ?pred target ?maxk)))) =
               top_count k output target" if k: "k \<in> set topk_arg" for k
  proof -
    from k have kmax: "k \<le> ?maxk" by simp
    have "length (filter id (concat (take k (correct_matrix ?pred target ?maxk)))) =
          length (filter (\<lambda>j. target ! j \<in> int ` set (take k (?pred ! j))) [0..<length ?pred])"
      using pred_ok kmax by (rule correct_count)
    also have "\<dots> = length (filter (\<lambda>j. among_top k (rows output ! j) (target ! j))
                              [0..<length (rows output)])"
    proof -
      have "filter (\<lambda>j. target ! j \<in> int ` set (take k (?pred ! j))) [0..<length ?pred] =
            filter (\<lambda>j. among_top k (rows output ! j) (target ! j)) [0..<length (rows output)]"
      proof (rule filter_cong)
        show "[0..<length ?pred] = [0..<length (rows output)]" by simp
      next
        fix j assume "j \<in> set [0..<length (rows output)]"
        then have "?pred ! j = take ?maxk (ranking (rows output ! j))" by simp
        with kmax have "take k (?pred ! j) = take k (ranking (rows output ! j))"
          by (simp add: min_def)
        then show "(target ! j \<in> int ` set (take k (?pred ! j))) =
                   among_top k (rows output ! j) (target ! j)"
          by (simp only: label_among_top)
      qed
      then show ?thesis by (simp only:)
    qed
    also have "\<dots> = top_count k output target"
      unfolding top_count_def using len by (simp add: zip_filter_index)
    finally show ?thesis .
  qed
  have "accuracy_sum output target topk_arg =
        Inr (map (\<lambda>k. 100 * real (length (filter id
               (concat (take k (correct_matrix ?pred target ?maxk)))))) topk_arg)"
    using ne tk ex by (simp add: accuracy_sum_def Let_def)
  also have "\<dots> = Inr (map (\<lambda>k. 100 * real (top_count k output target)) topk_arg)"
    using count by simp
  finally show ?thesis .
qed

text \<open>
  Claim C8. For a batch of score rows with one label per sample and a non-empty list of
  requested ranks whose maximum does not exceed the number of classes, \<^verbatim>\<open>accuracy_sum\<close>
  returns, for each requested \<open>k\<close> in order, 100 times the number (not the fraction) of
  samples whose label is among the \<open>k\<close> highest-scored classes of their row.
\<close>

theorem accuracy_sum_counts:
  assumes "wf_tensor output" and "topk_arg \<noteq> []"
    and "Max (set topk_arg) \<le> ncols output"
    and "length target = length (rows output)"
  shows "accuracy_sum output target topk_arg =
           Inr (map (\<lambda>k. 100 * real (length (filter (\<lambda>(row, y). among_top k row y)
                                               (zip (rows output) target)))) topk_arg)"
  using accuracy_sum_value [OF assms] by (simp add: top_count_def)

theorem accuracy_sum_counts_witness:
  "wf_tensor \<lparr>ncols = 5, rows = [[1, 5, 3, 5, 2], [9, 1, 2, 3, 4]]\<rparr>
   \<and> Max (set [1, 5]) \<le> ncols \<lparr>ncols = 5, rows = [[1, 5, 3, 5, 2], [9, 1, 2, 3, 4]]\<rparr>
   \<and> accuracy_sum \<lparr>ncols = 5, rows = [[1, 5, 3, 5, 2], [9, 1, 2, 3, 4]]\<rparr> [3, 4] [1, 5] =
       Inr [0, 200]"
proof -
  let ?out = "\<lparr>ncols = 5, rows = [[1, 5, 3, 5, 2], [9, 1, 2, 3, 4]]\<rparr>"
  have wf: "wf_tensor ?out" by (simp add: wf_tensor_def)
  have ne: "[1, 5 :: nat] \<noteq> []" by simp
  have range: "Max (set [1, 5]) \<le> ncols ?out" by simp
  have len: "length [3, 4 :: int] = length (rows ?out)" by simp
  have v: "map (\<lambda>k. 100 * real (length (filter (\<lambda>(row, y). among_top k row y)
                                     (zip (rows ?out) [3, 4])))) [1, 5] = [0, 200]"
    by code_simp
  from accuracy_sum_counts [OF wf ne range len] v wf range show ?thesis by simp
qed

text \<open>
  Claim C7. If a label is among the \<open>k\<close> highest-scored classes of a row it is among the
  \<open>k'\<close> highest-scored ones for every \<open>k' \<ge> k\<close>; and for a well-formed batch and requested
  ranks within the number of classes, \<^verbatim>\<open>accuracy_sum\<close> returns one value per requested rank,
  and the value for a rank is at most the value for any larger requested rank (so the
  top-1 value is at most the top-5 value for the ranks 1 and 5 that the program requests).
\<close>

theorem accuracy_sum_monotone:
  assumes "wf_tensor output" and "topk_arg \<noteq> []"
    and "Max (set topk_arg) \<le> ncols output"
    and "length target = length (rows output)"
    and "i < length topk_arg" and "j < length topk_arg" and "topk_arg ! i \<le> topk_arg ! j"
  shows "(among_top (topk_arg ! i) row y \<longrightarrow> among_top (topk_arg ! j) row y)
         \<and> (\<exists>res. accuracy_sum output target topk_arg = Inr res \<and> length res = length topk_arg
                  \<and> res ! i \<le> res ! j)"
proof -
  have "top_count (topk_arg ! i) output target \<le> top_count (topk_arg ! j) output target"
    using assms(7) by (rule top_count_mono)
  with accuracy_sum_value [OF assms(1-4)] assms(5-7) show ?thesis
    by (auto intro: among_top_mono)
qed

theorem accuracy_sum_monotone_witness:
  "wf_tensor \<lparr>ncols = 5, rows = [[1, 5, 3, 5, 2], [9, 1, 2, 3, 4]]\<rparr>
   \<and> among_top 1 [9, 1, 2, 3, 4] 0 \<and> among_top 5 [9, 1, 2, 3, 4] 0
   \<and> (\<exists>res. accuracy_sum \<lparr>ncols = 5, rows = [[1, 5, 3, 5, 2], [9, 1, 2, 3, 4]]\<rparr> [3, 0] [1, 5]
               = Inr res \<and> length res = Suc (Suc 0) \<and> res ! 0 \<le> res ! 1)"
proof -
  let ?out = "\<lparr>ncols = 5, rows = [[1, 5, 3, 5, 2], [9, 1, 2, 3, 4]]\<rparr>"
  have wf: "wf_tensor ?out" by (simp add: wf_tensor_def)
  have ne: "[1, 5 :: nat] \<noteq> []" by simp
  have range: "Max (set [1, 5]) \<le> ncols ?out" by simp
  have len: "length [3, 0 :: int] = length (rows ?out)" by simp
  have a1: "among_top 1 [9, 1, 2, 3, 4] 0"
    by code_simp
  have "among_top ([1, 5] ! 0) [9, 1, 2, 3, 4] 0 \<longrightarrow> among_top ([1, 5] ! 1) [9, 1, 2, 3, 4] 0"
    and "\<exists>res. accuracy_sum ?out [3, 0] [1, 5] = Inr res \<and> length res = length [1, 5 :: nat]
               \<and> res ! 0 \<le> res ! 1"
    using accuracy_sum_monotone [OF wf ne range len, of 0 1 "[9, 1, 2, 3, 4]" 0] by simp_all
  with a1 wf show ?thesis by simp
qed

text \<open>
  Claim C9, as amended. \<^verbatim>\<open>accuracy_sum\<close> fails exactly when the list of requested ranks is
  empty, or the largest requested rank exceeds the number of classes, or the label list has
  neither one label per sample nor a single label. The error is \<^verbatim>\<open>ValueError\<close> (from
  \<^verbatim>\<open>max\<close>) for an empty list of ranks, and otherwise \<^verbatim>\<open>RuntimeError\<close>: from \<^verbatim>\<open>topk\<close> for a
  rank out of range, which is the invalid-argument failure of the specification, and from
  \<^verbatim>\<open>expand_as\<close> for the labels. In every other case it returns one value per requested rank.
\<close>

theorem accuracy_sum_error_conditions:
  "isl (accuracy_sum output target topk_arg) =
     (topk_arg = [] \<or> ncols output < Max (set topk_arg)
      \<or> (length target \<noteq> length (rows output) \<and> length target \<noteq> 1))
   \<and> (case accuracy_sum output target topk_arg of
        Inl e \<Rightarrow> e = (if topk_arg = [] then ValueError else RuntimeError)
      | Inr res \<Rightarrow> length res = length topk_arg)"
  by (auto simp: accuracy_sum_def topk_def expand_target_def Let_def split: sum.splits)

text \<open>
  Claim C9 as stated fails: with the largest requested rank within the number of classes,
  two labels for a batch of one sample raise \<^verbatim>\<open>RuntimeError\<close>, and an empty list of ranks
  raises \<^verbatim>\<open>ValueError\<close>.
\<close>

theorem accuracy_sum_other_errors_counterexample:
  "Max (set [1]) \<le> ncols \<lparr>ncols = 3, rows = [[1, 5, 3]]\<rparr>
   \<and> accuracy_sum \<lparr>ncols = 3, rows = [[1, 5, 3]]\<rparr> [1, 2] [1] = Inl RuntimeError
   \<and> accuracy_sum \<lparr>ncols = 3, rows = [[1, 5, 3]]\<rparr> [1] [] = Inl ValueError"
  by (simp add: accuracy_sum_def topk_def expand_target_def)

section \<open>Properties of the aggregation\<close>

lemma reduced_None: "reduced rank mine peers None f = f mine"
  by (simp add: reduced_def)


lemma reduced_nonmember: "rank \<notin> set g \<Longrightarrow> reduced rank mine peers (Some g) f = f mine"
  by (simp add: reduced_def all_reduce_sum_def)










section \<open>Properties of the remainder step\<close>






section \<open>Properties of a single worker\<close>

lemma weights_ok_pos:
  "0 \<le> c \<Longrightarrow> (\<And>x. x \<in> set xs \<Longrightarrow> 0 < snd x) \<Longrightarrow> weights_ok c xs"
proof (induction xs arbitrary: c)
  case Nil
  then show ?case by (simp add: weights_ok_def)
next
  case (Cons x xs)
  obtain v n where x: "x = (v, n)" by (cases x)
  from Cons.prems(2) [of x] x have n: "0 < n" by simp
  have "weights_ok (c + n) xs"
    by (rule Cons.IH) (use Cons.prems n in auto)
  with n Cons.prems(1) x show ?case by (simp add: weights_ok_Cons)
qed

lemma weighted_total_feed:
  "(\<And>s. s \<in> set ss \<Longrightarrow> 0 < s_count s) \<Longrightarrow> weighted_total (meter_feed f ss) = (\<Sum>s\<leftarrow>ss. f s)"
  by (induction ss) (simp_all add: weighted_total_def meter_feed_def)

lemma weight_total_feed: "weight_total (meter_feed f ss) = (\<Sum>s\<leftarrow>ss. real (s_count s))"
  by (induction ss) (simp_all add: weight_total_def meter_feed_def)

lemma feed_average:
  assumes "ss \<noteq> []" and "\<And>s. s \<in> set ss \<Longrightarrow> 0 < s_count s"
  shows "\<exists>m. updates AverageMeter (meter_feed f ss) = Inr m \<and> avg m = local_mean f ss"
proof -
  have ok: "weights_ok (count AverageMeter) (meter_feed f ss)"
    by (rule weights_ok_pos) (use assms(2) in \<open>auto simp: AverageMeter_def reset_def meter_feed_def\<close>)
  have ne: "meter_feed f ss \<noteq> []" using assms(1) by (simp add: meter_feed_def)
  from updates_general [OF ok ne] assms(2) show ?thesis
    by (simp add: weighted_total_feed weight_total_feed local_mean_def AverageMeter_def reset_def)
qed

lemma process_alone:
  assumes "local_stats b = Inr s" and "0 < s_count s"
    and "0 \<le> count (losses st)" and "0 \<le> count (top1 st)" and "0 \<le> count (top5 st)"
  shows "\<exists>l t1 t5.
           update (losses st) (s_loss s / real (s_count s)) (real (s_count s)) = Inr l
         \<and> update (top1 st) (s_prec1 s / real (s_count s)) (real (s_count s)) = Inr t1
         \<and> update (top5 st) (s_prec5 s / real (s_count s)) (real (s_count s)) = Inr t5
         \<and> 0 \<le> count l \<and> 0 \<le> count t1 \<and> 0 \<le> count t5
         \<and> process rank b peers None st = Inr (st\<lparr>losses := l, top1 := t1, top5 := t5\<rparr>)"
proof -
  let ?n = "real (s_count s)"
  have nz: "count (losses st) + ?n \<noteq> 0" "count (top1 st) + ?n \<noteq> 0" "count (top5 st) + ?n \<noteq> 0"
    using assms(2-5) by simp_all
  show ?thesis
    using assms
    by (simp add: process_def aggregate_def reduced_def Let_def update_ok [OF nz(1)]
          update_ok [OF nz(2)] update_ok [OF nz(3)])
qed

lemma train_loop_alone:
  assumes "\<not> is_initialized d"
  shows "map (\<lambda>x. local_stats (fst x)) loader = map Inr ss \<Longrightarrow>
         (\<And>s. s \<in> set ss \<Longrightarrow> 0 < s_count s) \<Longrightarrow>
         0 \<le> count (losses st) \<Longrightarrow> 0 \<le> count (top1 st) \<Longrightarrow> 0 \<le> count (top5 st) \<Longrightarrow>
         \<exists>l t1 t5.
           updates (losses st) (meter_feed s_loss ss) = Inr l
         \<and> updates (top1 st) (meter_feed s_prec1 ss) = Inr t1
         \<and> updates (top5 st) (meter_feed s_prec5 ss) = Inr t5
         \<and> train_loop d loader st = Inr (st\<lparr>losses := l, top1 := t1, top5 := t5\<rparr>)"
proof (induction loader arbitrary: ss st)
  case Nil
  then show ?case by (simp add: meter_feed_def)
next
  case (Cons x loader)
  obtain b peers where x: "x = (b, peers)" by (cases x)
  from Cons.prems(1) obtain s rest where ss: "ss = s # rest"
    and s: "local_stats b = Inr s" and rest: "map (\<lambda>x. local_stats (fst x)) loader = map Inr rest"
    using x by (cases ss) auto
  from Cons.prems(2) ss have spos: "0 < s_count s" by simp
  from process_alone [OF s spos Cons.prems(3-5), of "get_rank d" peers]
  obtain l t1 t5 where u:
      "update (losses st) (s_loss s / real (s_count s)) (real (s_count s)) = Inr l"
      "update (top1 st) (s_prec1 s / real (s_count s)) (real (s_count s)) = Inr t1"
      "update (top5 st) (s_prec5 s / real (s_count s)) (real (s_count s)) = Inr t5"
    and c: "0 \<le> count l" "0 \<le> count t1" "0 \<le> count t5"
    and p: "process (get_rank d) b peers None st = Inr (st\<lparr>losses := l, top1 := t1, top5 := t5\<rparr>)"
    by blast
  let ?st1 = "st\<lparr>losses := l, top1 := t1, top5 := t5\<rparr>"
  have "\<exists>l' t1' t5'.
           updates (losses ?st1) (meter_feed s_loss rest) = Inr l'
         \<and> updates (top1 ?st1) (meter_feed s_prec1 rest) = Inr t1'
         \<and> updates (top5 ?st1) (meter_feed s_prec5 rest) = Inr t5'
         \<and> train_loop d loader ?st1 = Inr (?st1\<lparr>losses := l', top1 := t1', top5 := t5'\<rparr>)"
    by (rule Cons.IH [OF rest]) (use Cons.prems(2) ss c in simp_all)
  then obtain l' t1' t5' where r:
      "updates l (meter_feed s_loss rest) = Inr l'"
      "updates t1 (meter_feed s_prec1 rest) = Inr t1'"
      "updates t5 (meter_feed s_prec5 rest) = Inr t5'"
      "train_loop d loader ?st1 = Inr (?st1\<lparr>losses := l', top1 := t1', top5 := t5'\<rparr>)"
    by auto
  have "train_loop d (x # loader) st = Inr (st\<lparr>losses := l', top1 := t1', top5 := t5'\<rparr>)"
    using x p r(4) assms by (simp add: train_metrics_def)
  moreover have "updates (losses st) (meter_feed s_loss ss) = Inr l'"
    "updates (top1 st) (meter_feed s_prec1 ss) = Inr t1'"
    "updates (top5 st) (meter_feed s_prec5 ss) = Inr t5'"
    using ss u r(1-3) by (simp_all add: meter_feed_def)
  ultimately show ?case by blast
qed

lemma process_None_rank: "process r b peers None st = process r' b peers None st"
  unfolding process_def aggregate_def reduced_None by (rule refl)

lemma validate_loop_alone:
  "\<not> is_initialized d \<Longrightarrow> validate_loop d rank 0 loader st = train_loop d loader st"
proof (induction loader arbitrary: st)
  case Nil
  then show ?case by simp
next
  case (Cons x loader)
  obtain b peers where x: "x = (b, peers)" by (cases x)
  show ?case
    using Cons x process_None_rank [of rank b peers st "get_rank d"]
    by (simp add: train_metrics_def split: sum.splits)
qed

text \<open>
  Claim C10. With a world size of 1 the process group is not initialised. For a non-empty
  loader whose batches each hold at least one sample and are scored without error, both
  \<^verbatim>\<open>validate\<close> (for any dataset size \<open>N\<close>; the remainder \<open>N mod 1\<close> is 0) and the statistics of
  \<^verbatim>\<open>train\<close> return, issue no collective call and form no group, and the averages of the loss
  and of the two accuracies they report are the sums over the worker's own batches divided by
  the number of its own samples.
\<close>

theorem single_worker_local:
  assumes "loader \<noteq> []"
    and "map (\<lambda>x. local_stats (fst x)) loader = map Inr ss"
    and "\<And>s. s \<in> set ss \<Longrightarrow> 0 < s_count s"
  shows "\<exists>st. validate (dist_of 1 0) N loader = Inr st
            \<and> train (dist_of 1 0) loader = Inr st
            \<and> calls st = []
            \<and> avg (losses st) = local_mean s_loss ss
            \<and> avg (top1 st) = local_mean s_prec1 ss
            \<and> avg (top5 st) = local_mean s_prec5 ss"
proof -
  let ?d = "dist_of 1 0"
  have ni: "\<not> is_initialized ?d" by (simp add: dist_of_def)
  have c: "0 \<le> count (losses fresh_meters)" "0 \<le> count (top1 fresh_meters)"
          "0 \<le> count (top5 fresh_meters)"
    by (simp_all add: fresh_meters_def AverageMeter_def reset_def)
  from train_loop_alone [OF ni assms(2,3) c]
  obtain l t1 t5 where u:
      "updates (losses fresh_meters) (meter_feed s_loss ss) = Inr l"
      "updates (top1 fresh_meters) (meter_feed s_prec1 ss) = Inr t1"
      "updates (top5 fresh_meters) (meter_feed s_prec5 ss) = Inr t5"
    and t: "train_loop ?d loader fresh_meters = Inr (fresh_meters\<lparr>losses := l, top1 := t1, top5 := t5\<rparr>)"
    by blast
  let ?st = "fresh_meters\<lparr>losses := l, top1 := t1, top5 := t5\<rparr>"
  from assms(2) assms(1) have ne: "ss \<noteq> []" by auto
  have a: "avg l = local_mean s_loss ss" "avg t1 = local_mean s_prec1 ss"
          "avg t5 = local_mean s_prec5 ss"
    using feed_average [OF ne assms(3), of s_loss] feed_average [OF ne assms(3), of s_prec1]
      feed_average [OF ne assms(3), of s_prec5] u
    by (simp_all add: fresh_meters_def)
  have v: "validate ?d N loader = Inr ?st"
    using ni t assms(1) validate_loop_alone [OF ni, of 0 loader fresh_meters]
    by (simp add: validate_def split: list.splits)
  have tr: "train ?d loader = Inr ?st" using t by (simp add: train_def)
  have "calls ?st = []" by (simp add: fresh_meters_def)
  with v tr a show ?thesis by simp
qed


theorem single_worker_local_witness:
  "\<exists>st. validate (dist_of 1 0) 3
          [(\<lparr>b_output = \<lparr>ncols = 5, rows = [[5, 4, 3, 2, 1]]\<rparr>, b_target = [0], b_loss = 2\<rparr>,
            \<lambda>r. \<lparr>s_loss = 0, s_prec1 = 0, s_prec5 = 0, s_count = 0\<rparr>),
           (\<lparr>b_output = \<lparr>ncols = 5, rows = [[1, 2, 3, 4, 5], [1, 2, 3, 4, 5]]\<rparr>,
              b_target = [0, 4], b_loss = 3\<rparr>,
            \<lambda>r. \<lparr>s_loss = 0, s_prec1 = 0, s_prec5 = 0, s_count = 0\<rparr>)] = Inr st
        \<and> calls st = [] \<and> avg (losses st) = 8 / 3 \<and> avg (top1 st) = 200 / 3
        \<and> avg (top5 st) = 100"
proof -
  let ?b1 = "\<lparr>b_output = \<lparr>ncols = 5, rows = [[5, 4, 3, 2, 1]]\<rparr>, b_target = [0], b_loss = 2\<rparr>"
  let ?b2 = "\<lparr>b_output = \<lparr>ncols = 5, rows = [[1, 2, 3, 4, 5], [1, 2, 3, 4, 5]]\<rparr>,
              b_target = [0, 4], b_loss = 3\<rparr>"
  let ?p = "\<lambda>r::nat. \<lparr>s_loss = 0, s_prec1 = 0, s_prec5 = 0, s_count = 0\<rparr>"
  let ?s1 = "\<lparr>s_loss = 2, s_prec1 = 100, s_prec5 = 100, s_count = 1\<rparr>"
  let ?s2 = "\<lparr>s_loss = 6, s_prec1 = 100, s_prec5 = 200, s_count = 2\<rparr>"
  have l1: "local_stats ?b1 = Inr ?s1" by code_simp
  have l2: "local_stats ?b2 = Inr ?s2" by code_simp
  have ne: "[(?b1, ?p), (?b2, ?p)] \<noteq> []" by simp
  have m: "map (\<lambda>x. local_stats (fst x)) [(?b1, ?p), (?b2, ?p)] = map Inr [?s1, ?s2]"
    using l1 l2 by simp
  have pos: "\<And>s. s \<in> set [?s1, ?s2] \<Longrightarrow> 0 < s_count s" by auto
  from single_worker_local [OF ne m pos, of 3] show ?thesis
    by (simp add: local_mean_def) blast
qed

section \<open>Properties of the evaluation pass of all processes\<close>

text \<open>
  Claim C1, evaluated on the code. Three processes evaluate a dataset of four samples with
  one sample per batch, so the remainder \<open>R\<close> is 1: rank 0 has two batches, ranks 1 and 2 have
  one. Every iteration forms the group of rank 0 and all-reduces over it. After its loop rank
  2 calls \<^verbatim>\<open>new_group\<close> once more, but rank 1 does not, since the test after the loop is
  \<^verbatim>\<open>rank > last_group_size\<close> and its rank equals \<open>R\<close>. The job runs until rank 0 (in its second
  iteration) and rank 2 (after its loop) wait in \<^verbatim>\<open>new_group\<close> for rank 1, which has returned
  from \<^verbatim>\<open>validate\<close>: both are blocked in a call that rank 1 never issues.
\<close>

theorem evaluation_blocks:
  "map issued (world_validate 5 (replicate 4 example_sample) 3 1) =
     [[NewGroup [0], AllReduce [0], AllReduce [0], AllReduce [0], AllReduce [0],
       NewGroup [0], AllReduce [0], AllReduce [0], AllReduce [0], AllReduce [0]],
      [NewGroup [0], AllReduce [0], AllReduce [0], AllReduce [0], AllReduce [0]],
      [NewGroup [0], AllReduce [0], AllReduce [0], AllReduce [0], AllReduce [0],
       NewGroup [0]]]
   \<and> finish 3 (map issued (world_validate 5 (replicate 4 example_sample) 3 1)) =
     [[NewGroup [0], AllReduce [0], AllReduce [0], AllReduce [0], AllReduce [0]],
      [],
      [NewGroup [0]]]
   \<and> blocked 3 (finish 3 (map issued (world_validate 5 (replicate 4 example_sample) 3 1))) 0
   \<and> pending (finish 3 (map issued (world_validate 5 (replicate 4 example_sample) 3 1))) 1 = None
   \<and> blocked 3 (finish 3 (map issued (world_validate 5 (replicate 4 example_sample) 3 1))) 2"
  by code_simp

text \<open>
  Further runs of the same pass. With two samples per batch and four samples, rank 0 holds a
  batch of two and all-reduces over the world group while ranks 1 and 2 hold a batch of one
  and take the remainder branch: no call of the job can return. With seven samples every
  process has a full batch and rank 0 a final batch of one; ranks 1 and 2 end with a batch of
  two, skip the call after the loop, and rank 0 waits in \<^verbatim>\<open>new_group\<close>. With fewer samples
  than processes a process without data fails on the unbound loop variable. With six samples
  (remainder 0) the pass completes.
\<close>

lemma mixed_groups_block:
  "map issued (world_validate 5 (replicate 4 example_sample) 3 2) =
     [[AllReduce [0, 1, 2], AllReduce [0, 1, 2], AllReduce [0, 1, 2], AllReduce [0, 1, 2]],
      [NewGroup [0], AllReduce [0], AllReduce [0], AllReduce [0], AllReduce [0]],
      [NewGroup [0], AllReduce [0], AllReduce [0], AllReduce [0], AllReduce [0],
       NewGroup [0]]]
   \<and> blocked 3 (map issued (world_validate 5 (replicate 4 example_sample) 3 2)) 0
   \<and> blocked 3 (map issued (world_validate 5 (replicate 4 example_sample) 3 2)) 1
   \<and> blocked 3 (map issued (world_validate 5 (replicate 4 example_sample) 3 2)) 2"
  by code_simp

lemma full_batches_block:
  "map (\<lambda>r. map batch_size (val_batches 5 (replicate 7 example_sample) 3 2 r)) [0..<3] =
     [[2, 1], [2], [2]]
   \<and> finish 3 (map issued (world_validate 5 (replicate 7 example_sample) 3 2)) =
     [[NewGroup [0], AllReduce [0], AllReduce [0], AllReduce [0], AllReduce [0]], [], []]
   \<and> blocked 3 (finish 3 (map issued (world_validate 5 (replicate 7 example_sample) 3 2))) 0"
  by code_simp

lemma no_data_unbound_input:
  "world_validate 5 (replicate 2 example_sample) 3 1 ! 2 = Inl UnboundLocalError"
  by code_simp

lemma even_split_completes:
  "finish 3 (map issued (world_validate 5 (replicate 6 example_sample) 3 2)) = [[], [], []]"
  by code_simp

end
